theory Spec2Isabelle
  imports Main "HOL-Library.Word"
begin

unbundle bit_operations_syntax

section \<open>gulp-labelizer: the record of labeled files\<close>

text \<open>
  The plugin (\<^verbatim>\<open>index.js\<close>) keeps a process-wide \<^verbatim>\<open>Set\<close> of content hashes, read once
  from \<^verbatim>\<open>labeled.json\<close> when the module is loaded, and offers three object-mode stream
  stages: \<^verbatim>\<open>notLabled\<close> (filter), \<^verbatim>\<open>label\<close> and \<^verbatim>\<open>dump\<close>.

  The embedding follows the source function by function. What the source calls but does
  not define is modelled after ECMAScript and Node:
  \<^item> strings are sequences of UTF-16 code units;
  \<^item> \<^verbatim>\<open>JSON.parse\<close> and \<^verbatim>\<open>JSON.stringify(_, null, 2)\<close> are written out (lexer, parser,
    serializer);
  \<^item> a \<^verbatim>\<open>Set\<close> is the list of its elements in insertion order;
  \<^item> the record file is absent or holds a text: the string Node decodes from its bytes
    (lemma \<open>well_formed_record\<close>: what the plugin writes for a set of strings has no
    surrogate outside a pair, so it is decoded as it was written).
    Failing reads and writes (permissions, a directory at the path, a full disk) and
    the limits of the engine (stack depth, memory) are outside the model;
  \<^item> \<^verbatim>\<open>hasha\<close> and the conversions between number literals and Number values (floating
    point) are parameters, collected in a record \<open>platform\<close>.
\<close>

subsection \<open>Strings\<close>

type_synonym code_unit = "16 word"
type_synonym jsstring = "code_unit list"
type_synonym byte = "8 word"

text \<open>An ASCII literal as a JavaScript string.\<close>

definition js :: "string \<Rightarrow> jsstring" where
  "js s = map of_char s"

definition is_high_surrogate :: "code_unit \<Rightarrow> bool" where
  "is_high_surrogate c = (0xD800 \<le> c \<and> c \<le> 0xDBFF)"

definition is_low_surrogate :: "code_unit \<Rightarrow> bool" where
  "is_low_surrogate c = (0xDC00 \<le> c \<and> c \<le> 0xDFFF)"

text \<open>
  Iterating a string (\<^verbatim>\<open>String.prototype[Symbol.iterator]\<close>) yields its code points, each
  as a string: a surrogate pair is one element, any other code unit is one element.
\<close>

fun code_points :: "jsstring \<Rightarrow> jsstring list" where
  "code_points [] = []"
| "code_points [c] = [[c]]"
| "code_points (c # d # cs) =
     (if is_high_surrogate c \<and> is_low_surrogate d then [c, d] # code_points cs
      else [c] # code_points (d # cs))"

text \<open>
  A string is well formed when every surrogate in it is half of a pair. Such a string
  is written as UTF-8 and decoded again without change.
\<close>

fun well_formed :: "jsstring \<Rightarrow> bool" where
  "well_formed [] = True"
| "well_formed [c] = (\<not> is_high_surrogate c \<and> \<not> is_low_surrogate c)"
| "well_formed (c # d # cs) =
     (if is_high_surrogate c \<and> is_low_surrogate d then well_formed cs
      else \<not> is_high_surrogate c \<and> \<not> is_low_surrogate c \<and> well_formed (d # cs))"

definition plain :: "code_unit \<Rightarrow> bool" where
  "plain c = (\<not> is_high_surrogate c \<and> \<not> is_low_surrogate c)"

subsection \<open>Values, errors, the platform\<close>

text \<open>
  The values \<^verbatim>\<open>JSON.parse\<close> can return, and so the values the set can hold. \<open>'n\<close> is the
  type of Number values. An object is the list of its properties in enumeration order.
\<close>

datatype 'n jsval =
    VNull
  | VBool bool
  | VNum 'n
  | VStr jsstring
  | VArr "'n jsval list"
  | VObj "(jsstring \<times> 'n jsval) list"

datatype error = SyntaxError | TypeError | ReferenceError

record 'n platform =
  hasha :: "byte list \<Rightarrow> jsstring"
  toNumber :: "jsstring \<Rightarrow> 'n"
  numberText :: "'n \<Rightarrow> jsstring"

subsection \<open>JSON.parse: the lexer\<close>

datatype token =
    TLBrace | TRBrace | TLBracket | TRBracket | TColon | TComma
  | TString jsstring | TNumber jsstring | TTrue | TFalse | TNull

definition is_ws :: "code_unit \<Rightarrow> bool" where
  "is_ws c = (c = 0x20 \<or> c = 0x09 \<or> c = 0x0A \<or> c = 0x0D)"

definition is_digit :: "code_unit \<Rightarrow> bool" where
  "is_digit c = (0x30 \<le> c \<and> c \<le> 0x39)"

definition hexval :: "code_unit \<Rightarrow> code_unit option" where
  "hexval c =
     (if 0x30 \<le> c \<and> c \<le> 0x39 then Some (c - 0x30)
      else if 0x61 \<le> c \<and> c \<le> 0x66 then Some (c - 0x57)
      else if 0x41 \<le> c \<and> c \<le> 0x46 then Some (c - 0x37)
      else None)"

text \<open>The code unit written by the four hex digits of a \<^verbatim>\<open>\uXXXX\<close> escape.\<close>

definition hex4 :: "code_unit \<Rightarrow> code_unit \<Rightarrow> code_unit \<Rightarrow> code_unit \<Rightarrow> code_unit option" where
  "hex4 a b c d =
     (case (hexval a, hexval b, hexval c, hexval d) of
        (Some h3, Some h2, Some h1, Some h0) \<Rightarrow>
          Some (push_bit 12 h3 OR push_bit 8 h2 OR push_bit 4 h1 OR h0)
      | _ \<Rightarrow> None)"

text \<open>The character a one-letter escape stands for: \<^verbatim>\<open>\" \\ \/ \b \f \n \r \t\<close>.\<close>

definition unescape :: "code_unit \<Rightarrow> code_unit option" where
  "unescape e =
     (if e = 0x22 then Some 0x22
      else if e = 0x5C then Some 0x5C
      else if e = 0x2F then Some 0x2F
      else if e = 0x62 then Some 0x08
      else if e = 0x66 then Some 0x0C
      else if e = 0x6E then Some 0x0A
      else if e = 0x72 then Some 0x0D
      else if e = 0x74 then Some 0x09
      else None)"

definition consume :: "'a \<Rightarrow> ('a list \<times> 'b) option \<Rightarrow> ('a list \<times> 'b) option" where
  "consume c r = (case r of None \<Rightarrow> None | Some (s, rest) \<Rightarrow> Some (c # s, rest))"

text \<open>
  The body of a string literal, after its opening quote: the string it denotes and the
  input after the closing quote. Control characters must be escaped.
\<close>

fun lex_string :: "jsstring \<Rightarrow> (jsstring \<times> jsstring) option" where
  "lex_string [] = None"
| "lex_string (c # cs) =
     (if c = 0x22 then Some ([], cs)
      else if c = 0x5C then
        (case cs of
           [] \<Rightarrow> None
         | e # es \<Rightarrow>
             if e = 0x75 then
               (case es of
                  h3 # h2 # h1 # h0 # r \<Rightarrow>
                    (case hex4 h3 h2 h1 h0 of
                       None \<Rightarrow> None
                     | Some u \<Rightarrow> consume u (lex_string r))
                | _ \<Rightarrow> None)
             else
               (case unescape e of
                  None \<Rightarrow> None
                | Some u \<Rightarrow> consume u (lex_string es)))
      else if c < 0x20 then None
      else consume c (lex_string cs))"

text \<open>
  A number literal: \<^verbatim>\<open>-? (0 | [1-9][0-9]*) (. [0-9]+)? ([eE] [+-]? [0-9]+)?\<close>. The lexer
  returns the literal's text and the input after it.
\<close>

definition lex_int :: "jsstring \<Rightarrow> (jsstring \<times> jsstring) option" where
  "lex_int s =
     (case s of
        [] \<Rightarrow> None
      | c # cs \<Rightarrow>
          if c = 0x30 then Some ([c], cs)
          else if is_digit c then Some (c # takeWhile is_digit cs, dropWhile is_digit cs)
          else None)"

definition lex_frac :: "jsstring \<Rightarrow> (jsstring \<times> jsstring) option" where
  "lex_frac s =
     (case s of
        [] \<Rightarrow> Some ([], s)
      | c # cs \<Rightarrow>
          if c = 0x2E then
            (if takeWhile is_digit cs = [] then None
             else Some (c # takeWhile is_digit cs, dropWhile is_digit cs))
          else Some ([], s))"

definition lex_sign :: "jsstring \<Rightarrow> jsstring \<times> jsstring" where
  "lex_sign s =
     (case s of
        [] \<Rightarrow> ([], s)
      | c # cs \<Rightarrow> if c = 0x2B \<or> c = 0x2D then ([c], cs) else ([], s))"

definition lex_exp :: "jsstring \<Rightarrow> (jsstring \<times> jsstring) option" where
  "lex_exp s =
     (case s of
        [] \<Rightarrow> Some ([], s)
      | c # cs \<Rightarrow>
          if c = 0x65 \<or> c = 0x45 then
            (case lex_sign cs of
               (sg, r) \<Rightarrow>
                 if takeWhile is_digit r = [] then None
                 else Some (c # sg @ takeWhile is_digit r, dropWhile is_digit r))
          else Some ([], s))"

definition lex_number :: "jsstring \<Rightarrow> (jsstring \<times> jsstring) option" where
  "lex_number s =
     (case (case s of c # cs \<Rightarrow> if c = 0x2D then ([c], cs) else ([], s) | [] \<Rightarrow> ([], s)) of
        (m, r0) \<Rightarrow>
          (case lex_int r0 of
             None \<Rightarrow> None
           | Some (i, r1) \<Rightarrow>
               (case lex_frac r1 of
                  None \<Rightarrow> None
                | Some (f, r2) \<Rightarrow>
                    (case lex_exp r2 of
                       None \<Rightarrow> None
                     | Some (e, r3) \<Rightarrow> Some (m @ i @ f @ e, r3)))))"

definition push :: "token \<Rightarrow> token list option \<Rightarrow> token list option" where
  "push t r = (case r of None \<Rightarrow> None | Some ts \<Rightarrow> Some (t # ts))"

text \<open>
  The tokens of a text, or \<open>None\<close> where no token starts. White space is space, tab, line
  feed and carriage return, and nothing else.
\<close>

function tokenize :: "jsstring \<Rightarrow> token list option" where
  "tokenize [] = Some []"
| "tokenize (c # cs) =
     (if is_ws c then tokenize cs
      else if c = 0x7B then push TLBrace (tokenize cs)
      else if c = 0x7D then push TRBrace (tokenize cs)
      else if c = 0x5B then push TLBracket (tokenize cs)
      else if c = 0x5D then push TRBracket (tokenize cs)
      else if c = 0x3A then push TColon (tokenize cs)
      else if c = 0x2C then push TComma (tokenize cs)
      else if c = 0x22 then
        (case lex_string cs of
           None \<Rightarrow> None
         | Some (s, r) \<Rightarrow> push (TString s) (tokenize r))
      else if c = 0x2D \<or> is_digit c then
        (case lex_number (c # cs) of
           None \<Rightarrow> None
         | Some (n, r) \<Rightarrow> push (TNumber n) (tokenize r))
      else if take 4 (c # cs) = js ''true'' then push TTrue (tokenize (drop 3 cs))
      else if take 5 (c # cs) = js ''false'' then push TFalse (tokenize (drop 4 cs))
      else if take 4 (c # cs) = js ''null'' then push TNull (tokenize (drop 3 cs))
      else None)"
  by pat_completeness auto
termination
proof -
  have str: "length r \<le> length s" if "lex_string s = Some (v, r)" for s v r
    using that
  proof (induction s arbitrary: v r rule: lex_string.induct)
    case 1
    then show ?case by simp
  next
    case (2 c cs)
    show ?case
    proof (cases "lex_string (c # cs)")
      case None
      with 2 show ?thesis by simp
    next
      case (Some a)
      from "2.prems" "2.IH" show ?thesis
        by (fastforce simp: consume_def split: if_splits list.splits option.splits)
    qed
  qed
  have dw: "length (dropWhile P xs) \<le> length xs" for P and xs :: jsstring
    by (simp add: length_dropWhile_le)
  have int: "length r < length s" if "lex_int s = Some (v, r)" for s v r
    using that dw [of is_digit "tl s"]
    by (cases s) (auto simp: lex_int_def split: if_splits)
  have frac: "length r \<le> length s" if "lex_frac s = Some (v, r)" for s v r
    using that dw [of is_digit "tl s"]
    by (cases s) (auto simp: lex_frac_def split: if_splits)
  have sign: "length (snd (lex_sign s)) \<le> length s" for s
    by (cases s) (auto simp: lex_sign_def)
  have exp: "length r \<le> length s" if "lex_exp s = Some (v, r)" for s v r
  proof (cases s)
    case Nil
    with that show ?thesis by (simp add: lex_exp_def)
  next
    case (Cons c cs)
    with that sign [of cs] dw [of is_digit "snd (lex_sign cs)"] show ?thesis
      by (auto simp: lex_exp_def split: if_splits prod.splits)
  qed
  have num: "length r < length s" if "lex_number s = Some (v, r)" for s v r
    using that
    by (cases s)
      (auto simp: lex_number_def split: if_splits option.splits prod.splits
        dest!: int frac exp)
  show ?thesis
    by (relation "measure length") (auto dest!: str num)
qed

subsection \<open>JSON.parse: the parser\<close>

text \<open>
  A property key that is an array index: the canonical decimal form of an integer from 0
  to \<open>2\<^sup>3\<^sup>2 - 2\<close>. An object enumerates such keys first, in ascending order, and the
  other keys after them in the order of their creation.
\<close>

definition digits_value :: "jsstring \<Rightarrow> int" where
  "digits_value k = foldl (\<lambda>n c. 10 * n + uint (c - 0x30)) 0 k"

definition array_index :: "jsstring \<Rightarrow> int option" where
  "array_index k =
     (if k \<noteq> [] \<and> list_all is_digit k \<and> (take 1 k \<noteq> [0x30] \<or> length k = 1)
         \<and> digits_value k \<le> 4294967294
      then Some (digits_value k) else None)"

fun ins_index :: "int \<Rightarrow> jsstring \<Rightarrow> 'v \<Rightarrow> (jsstring \<times> 'v) list \<Rightarrow> (jsstring \<times> 'v) list" where
  "ins_index i k v [] = [(k, v)]"
| "ins_index i k v (p # ps) =
     (case array_index (fst p) of
        None \<Rightarrow> (k, v) # p # ps
      | Some j \<Rightarrow> if j < i then p # ins_index i k v ps else (k, v) # p # ps)"

text \<open>
  Defining property \<open>k\<close> of an object under construction: a key seen before keeps its
  place and takes the new value, a new key goes to its place in the enumeration order.
\<close>

definition obj_define :: "(jsstring \<times> 'v) list \<Rightarrow> jsstring \<Rightarrow> 'v \<Rightarrow> (jsstring \<times> 'v) list" where
  "obj_define ps k v =
     (if list_ex (\<lambda>p. fst p = k) ps
      then map (\<lambda>p. if fst p = k then (k, v) else p) ps
      else (case array_index k of
              None \<Rightarrow> ps @ [(k, v)]
            | Some i \<Rightarrow> ins_index i k v ps))"

text \<open>
  Recursive descent over the tokens. Each function returns the value and the tokens
  after it. \<open>parse_elements\<close> reads the elements of an array after its opening bracket,
  \<open>parse_members\<close> the members of an object after its opening brace; \<open>num\<close> gives the
  Number a literal denotes. The test \<open>length r < length ts\<close> states that a value takes
  at least one token (lemma \<open>parse_consumes\<close> shows that this test never fails).
\<close>

function (sequential)
  parse_value :: "(jsstring \<Rightarrow> 'n) \<Rightarrow> token list \<Rightarrow> ('n jsval \<times> token list) option" and
  parse_elements ::
    "(jsstring \<Rightarrow> 'n) \<Rightarrow> 'n jsval list \<Rightarrow> token list \<Rightarrow> ('n jsval \<times> token list) option" and
  parse_members ::
    "(jsstring \<Rightarrow> 'n) \<Rightarrow> (jsstring \<times> 'n jsval) list \<Rightarrow> token list
      \<Rightarrow> ('n jsval \<times> token list) option"
where
  "parse_value num [] = None"
| "parse_value num (TNull # ts) = Some (VNull, ts)"
| "parse_value num (TTrue # ts) = Some (VBool True, ts)"
| "parse_value num (TFalse # ts) = Some (VBool False, ts)"
| "parse_value num (TNumber n # ts) = Some (VNum (num n), ts)"
| "parse_value num (TString s # ts) = Some (VStr s, ts)"
| "parse_value num (TLBracket # TRBracket # ts) = Some (VArr [], ts)"
| "parse_value num (TLBracket # ts) = parse_elements num [] ts"
| "parse_value num (TLBrace # TRBrace # ts) = Some (VObj [], ts)"
| "parse_value num (TLBrace # ts) = parse_members num [] ts"
| "parse_value num (_ # ts) = None"
| "parse_elements num acc ts =
     (case parse_value num ts of
        None \<Rightarrow> None
      | Some (v, r) \<Rightarrow>
          if length r < length ts then
            (case r of
               TComma # r' \<Rightarrow> parse_elements num (acc @ [v]) r'
             | TRBracket # r' \<Rightarrow> Some (VArr (acc @ [v]), r')
             | _ \<Rightarrow> None)
          else None)"
| "parse_members num acc (TString k # TColon # ts) =
     (case parse_value num ts of
        None \<Rightarrow> None
      | Some (v, r) \<Rightarrow>
          if length r < length ts then
            (case r of
               TComma # r' \<Rightarrow> parse_members num (obj_define acc k v) r'
             | TRBrace # r' \<Rightarrow> Some (VObj (obj_define acc k v), r')
             | _ \<Rightarrow> None)
          else None)"
| "parse_members num acc _ = None"
  by pat_completeness auto
termination
  by (relation "measure (\<lambda>x. case x of
        Inl (num, ts) \<Rightarrow> 2 * length ts
      | Inr (Inl (num, acc, ts)) \<Rightarrow> 2 * length ts + 1
      | Inr (Inr (num, acc, ts)) \<Rightarrow> 2 * length ts + 1)") auto

text \<open>\<^verbatim>\<open>JSON.parse(text)\<close>: one value, and nothing but white space around it.\<close>

definition JSON_parse :: "(jsstring \<Rightarrow> 'n) \<Rightarrow> jsstring \<Rightarrow> error + 'n jsval" where
  "JSON_parse num text =
     (case tokenize text of
        None \<Rightarrow> Inl SyntaxError
      | Some ts \<Rightarrow>
          (case parse_value num ts of
             None \<Rightarrow> Inl SyntaxError
           | Some (v, r) \<Rightarrow> if r = [] then Inr v else Inl SyntaxError))"

subsection \<open>JSON.stringify with an indentation of two spaces\<close>

definition hexdigit :: "code_unit \<Rightarrow> code_unit" where
  "hexdigit n = (if n < 10 then 0x30 + n else 0x57 + n)"

text \<open>\<^verbatim>\<open>\uXXXX\<close> with four lower-case hex digits.\<close>

definition unicode_escape :: "code_unit \<Rightarrow> jsstring" where
  "unicode_escape c =
     [0x5C, 0x75, hexdigit (drop_bit 12 c), hexdigit (drop_bit 8 c AND 0xF),
      hexdigit (drop_bit 4 c AND 0xF), hexdigit (c AND 0xF)]"

text \<open>A code unit that is not a surrogate, as it stands inside a quoted string.\<close>

definition quote_unit :: "code_unit \<Rightarrow> jsstring" where
  "quote_unit c =
     (if c = 0x08 then [0x5C, 0x62]
      else if c = 0x09 then [0x5C, 0x74]
      else if c = 0x0A then [0x5C, 0x6E]
      else if c = 0x0C then [0x5C, 0x66]
      else if c = 0x0D then [0x5C, 0x72]
      else if c = 0x22 then [0x5C, 0x22]
      else if c = 0x5C then [0x5C, 0x5C]
      else if c < 0x20 then unicode_escape c
      else [c])"

text \<open>
  The quoted string is built code point by code point: a surrogate pair stands as it
  is, a surrogate without its partner is escaped.
\<close>

fun quote_body :: "jsstring \<Rightarrow> jsstring" where
  "quote_body [] = []"
| "quote_body [c] =
     (if is_high_surrogate c \<or> is_low_surrogate c then unicode_escape c else quote_unit c)"
| "quote_body (c # d # cs) =
     (if is_high_surrogate c \<and> is_low_surrogate d then c # d # quote_body cs
      else if is_high_surrogate c \<or> is_low_surrogate c then unicode_escape c @ quote_body (d # cs)
      else quote_unit c @ quote_body (d # cs))"

definition QuoteJSONString :: "jsstring \<Rightarrow> jsstring" where
  "QuoteJSONString s = 0x22 # quote_body s @ [0x22]"

fun join :: "'a list \<Rightarrow> 'a list list \<Rightarrow> 'a list" where
  "join sep [] = []"
| "join sep [x] = x"
| "join sep (x # y # ys) = x @ sep @ join sep (y # ys)"

definition gap :: jsstring where
  "gap = [0x20, 0x20]"

text \<open>
  The text of a value at the indentation \<open>ind\<close>; \<open>numtext\<close> gives the text of a Number
  (its decimal form, \<^verbatim>\<open>null\<close> for an infinity).
\<close>

fun serialize :: "('n \<Rightarrow> jsstring) \<Rightarrow> jsstring \<Rightarrow> 'n jsval \<Rightarrow> jsstring" where
  "serialize numtext ind VNull = js ''null''"
| "serialize numtext ind (VBool b) = (if b then js ''true'' else js ''false'')"
| "serialize numtext ind (VNum n) = numtext n"
| "serialize numtext ind (VStr s) = QuoteJSONString s"
| "serialize numtext ind (VArr vs) =
     (if vs = [] then js ''[]''
      else [0x5B, 0x0A] @ ind @ gap
        @ join ([0x2C, 0x0A] @ ind @ gap) (map (serialize numtext (ind @ gap)) vs)
        @ [0x0A] @ ind @ [0x5D])"
| "serialize numtext ind (VObj ps) =
     (if ps = [] then js ''{}''
      else [0x7B, 0x0A] @ ind @ gap
        @ join ([0x2C, 0x0A] @ ind @ gap)
            (map (\<lambda>p. QuoteJSONString (fst p) @ [0x3A, 0x20] @ serialize numtext (ind @ gap) (snd p)) ps)
        @ [0x0A] @ ind @ [0x7D])"

text \<open>
  \<^verbatim>\<open>JSON.stringify(value, null, 2)\<close>, as ECMAScript 2019 and later define it (a surrogate
  without its partner is escaped).
\<close>

definition JSON_stringify :: "('n \<Rightarrow> jsstring) \<Rightarrow> 'n jsval \<Rightarrow> jsstring" where
  "JSON_stringify numtext v = serialize numtext [] v"

subsection \<open>Set\<close>

text \<open>
  A \<^verbatim>\<open>Set\<close> is the list of its elements in insertion order. Elements are compared with
  SameValueZero: primitive values by value, objects and arrays by identity. The objects
  and arrays in the set come from \<^verbatim>\<open>JSON.parse\<close> alone, each one created there; the
  program looks up and adds strings only, so no object is ever compared with itself.
\<close>

fun SameValueZero :: "'n jsval \<Rightarrow> 'n jsval \<Rightarrow> bool" where
  "SameValueZero VNull VNull = True"
| "SameValueZero (VBool a) (VBool b) = (a = b)"
| "SameValueZero (VNum a) (VNum b) = (a = b)"
| "SameValueZero (VStr a) (VStr b) = (a = b)"
| "SameValueZero _ _ = False"

definition Set_has :: "'n jsval list \<Rightarrow> 'n jsval \<Rightarrow> bool" where
  "Set_has s v = list_ex (\<lambda>e. SameValueZero e v) s"

definition Set_add :: "'n jsval list \<Rightarrow> 'n jsval \<Rightarrow> 'n jsval list" where
  "Set_add s v = (if Set_has s v then s else s @ [v])"

text \<open>
  \<^verbatim>\<open>new Set(iterable)\<close>: empty for \<^verbatim>\<open>null\<close>, the elements of an array, the code points of a
  string, and a TypeError for a value that cannot be iterated.
\<close>

fun Set_new :: "'n jsval \<Rightarrow> error + 'n jsval list" where
  "Set_new VNull = Inr []"
| "Set_new (VArr vs) = Inr (foldl Set_add [] vs)"
| "Set_new (VStr s) = Inr (foldl Set_add [] (map VStr (code_points s)))"
| "Set_new (VBool b) = Inl TypeError"
| "Set_new (VNum n) = Inl TypeError"
| "Set_new (VObj ps) = Inl TypeError"

subsection \<open>The module\<close>

text \<open>
  The state: the module's \<^verbatim>\<open>labeledSet\<close> and the record file at \<^verbatim>\<open>recordPath\<close> (\<open>None\<close>
  when there is no such file).
\<close>

record 'n state =
  labeledSet :: "'n jsval list"
  recordFile :: "jsstring option"

text \<open>
  A vinyl file, as far as the plugin reads it: \<^verbatim>\<open>file.isNull()\<close> holds when the contents
  are \<^verbatim>\<open>null\<close>; otherwise the contents are a buffer. (Files whose contents are a stream
  are outside the model.)
\<close>

record vinyl =
  path :: jsstring
  contents :: "byte list option"

text \<open>
  What a transformer does with its item: \<^verbatim>\<open>next(null, file)\<close> forwards it, \<^verbatim>\<open>next()\<close>
  drops it; an exception is \<open>Inl\<close>. A transformer takes the item and the state and
  returns the state with its result; the \<^verbatim>\<open>encoding\<close> argument, which no transformer
  reads, is left out.
\<close>

datatype callback = Forward vinyl | Drop

type_synonym 'n transformer = "vinyl \<Rightarrow> 'n state \<Rightarrow> (error + callback) \<times> 'n state"

text \<open>\<^verbatim>\<open>_getLabeledFiles\<close>: the parsed record file, or an empty array without the file.\<close>

definition getLabeledFiles :: "'n platform \<Rightarrow> jsstring option \<Rightarrow> error + 'n jsval" where
  "getLabeledFiles P file =
     (case file of
        Some text \<Rightarrow> JSON_parse (toNumber P) text
      | None \<Rightarrow> Inr (VArr []))"

text \<open>
  Loading the module: \<^verbatim>\<open>let labeledSet = new Set(_getLabeledFiles())\<close>. An exception
  here is thrown by \<^verbatim>\<open>require\<close>.
\<close>

definition load_module :: "'n platform \<Rightarrow> jsstring option \<Rightarrow> error + 'n state" where
  "load_module P file =
     (case getLabeledFiles P file of
        Inl e \<Rightarrow> Inl e
      | Inr v \<Rightarrow>
          (case Set_new v of
             Inl e \<Rightarrow> Inl e
           | Inr s \<Rightarrow> Inr \<lparr>labeledSet = s, recordFile = file\<rparr>))"

text \<open>\<^verbatim>\<open>_filterNotLabled\<close>\<close>

definition filterNotLabled :: "'n platform \<Rightarrow> 'n transformer" where
  "filterNotLabled P file st =
     (case contents file of
        None \<Rightarrow> (Inr (Forward file), st)
      | Some buf \<Rightarrow>
          (let hasExisted = Set_has (labeledSet st) (VStr (hasha P buf))
           in if hasExisted then (Inr Drop, st) else (Inr (Forward file), st)))"

text \<open>\<^verbatim>\<open>_labelFile\<close>\<close>

definition labelFile :: "'n platform \<Rightarrow> 'n transformer" where
  "labelFile P file st =
     (case contents file of
        None \<Rightarrow> (Inr (Forward file), st)
      | Some buf \<Rightarrow>
          (Inr (Forward file),
           st\<lparr>labeledSet := Set_add (labeledSet st) (VStr (hasha P buf))\<rparr>))"

text \<open>
  \<^verbatim>\<open>_dumpToRecordJSON\<close>. After the write the function calls \<^verbatim>\<open>cb\<close>, a name that is bound
  nowhere: the call throws a ReferenceError, and \<^verbatim>\<open>next\<close> is never called.
\<close>

definition dumpToRecordJSON :: "'n platform \<Rightarrow> 'n transformer" where
  "dumpToRecordJSON P file st =
     (case contents file of
        None \<Rightarrow> (Inr (Forward file), st)
      | Some buf \<Rightarrow>
          (let jsonStr = JSON_stringify (numberText P) (VArr (labeledSet st))
           in (Inl ReferenceError, st\<lparr>recordFile := Some jsonStr\<rparr>)))"

subsection \<open>Stream stages\<close>

record 'n stage =
  maxConcurrency :: nat
  transformer :: "'n transformer"

definition createThroughStream :: "'n transformer \<Rightarrow> 'n stage" where
  "createThroughStream t = \<lparr>maxConcurrency = 8, transformer = t\<rparr>"

definition notLabled :: "'n platform \<Rightarrow> 'n stage" where
  "notLabled P = createThroughStream (filterNotLabled P)"

definition label :: "'n platform \<Rightarrow> 'n stage" where
  "label P = createThroughStream (labelFile P)"

definition dump :: "'n platform \<Rightarrow> 'n stage" where
  "dump P = createThroughStream (dumpToRecordJSON P)"

text \<open>
  The stream that through2-concurrent (a dependency, not part of the sources) builds
  around a transformer, as section 4.2 of the spec describes it: an item passed to the
  completion callback is forwarded, a callback without an item drops it, an error
  fails the stream. The three transformers call back before they return, so the items
  are taken one after the other, in their order; the result is the items sent
  downstream, the error that stopped the stream if any, and the state.
\<close>

fun run :: "'n transformer \<Rightarrow> vinyl list \<Rightarrow> 'n state \<Rightarrow> (vinyl list \<times> error option) \<times> 'n state" where
  "run t [] st = (([], None), st)"
| "run t (f # fs) st =
     (case t f st of
        (Inl e, st') \<Rightarrow> (([], Some e), st')
      | (Inr Drop, st') \<Rightarrow> run t fs st'
      | (Inr (Forward g), st') \<Rightarrow>
          (case run t fs st' of ((out, err), st'') \<Rightarrow> ((g # out, err), st'')))"

definition pipe :: "vinyl list \<Rightarrow> 'n stage \<Rightarrow> 'n state \<Rightarrow> (vinyl list \<times> error option) \<times> 'n state" where
  "pipe items s st = run (transformer s) items st"

subsection \<open>A platform to run the model on\<close>

text \<open>
  For the examples: a stand-in for \<^verbatim>\<open>hasha\<close> that writes its input in hex (a digest is a
  hex string too), and number literals kept as their text.
\<close>

definition hex_of_byte :: "byte \<Rightarrow> jsstring" where
  "hex_of_byte b = [hexdigit (ucast (drop_bit 4 b)), hexdigit (ucast (b AND 0xF))]"

definition demo :: "jsstring platform" where
  "demo = \<lparr>hasha = (\<lambda>buf. concat (map hex_of_byte buf)), toNumber = id, numberText = id\<rparr>"

section \<open>Properties\<close>

subsection \<open>Reading back a quoted string\<close>

text \<open>
  The four hex digits of an escape give the code unit back, and so the lexer reads from
  a quoted string the string that was quoted, whatever code units it holds.
\<close>

lemma hexval_hexdigit: "n < 16 \<Longrightarrow> hexval (hexdigit n) = Some n"
  unfolding hexval_def hexdigit_def
  by (auto simp: word_le_nat_alt word_less_nat_alt unat_word_ariths unat_sub)

lemma nib_lt: "(w :: code_unit) AND 0xF < 16"
proof -
  have "w AND 0xF \<le> 0xF" by (rule word_and_le1)
  then show ?thesis by unat_arith
qed

lemma top_lt: "drop_bit 12 (c :: code_unit) < 16"
proof -
  have "unat (drop_bit 12 c) = unat c div 2 ^ 12"
    by (simp add: drop_bit_eq_div unat_div)
  moreover have "unat c < 2 ^ 16"
    using unsigned_less [of c] by simp
  ultimately have "unat (drop_bit 12 c) < 16" by simp
  then show ?thesis by (simp add: word_less_nat_alt)
qed

lemma nibbles: "push_bit 12 (drop_bit 12 c) OR push_bit 8 (drop_bit 8 c AND 0xF)
    OR push_bit 4 (drop_bit 4 c AND 0xF) OR (c AND 0xF) = (c :: code_unit)"
proof -
  have m: "(0xF :: code_unit) = mask 4" by (simp add: mask_eq_exp_minus_1)
  show ?thesis
    unfolding m
  proof (rule bit_word_eqI)
    fix n
    assume "n < LENGTH(16)"
    then consider "n < 4" | "4 \<le> n" "n < 8" | "8 \<le> n" "n < 12" | "12 \<le> n" "n < 16"
      by fastforce
    then show "bit (push_bit 12 (drop_bit 12 c) OR push_bit 8 (drop_bit 8 c AND mask 4)
        OR push_bit 4 (drop_bit 4 c AND mask 4) OR (c AND mask 4)) n = bit c n"
      by cases (auto simp: bit_simps)
  qed
qed


lemma hex4_unicode:
  "hex4 (hexdigit (drop_bit 12 c)) (hexdigit (drop_bit 8 c AND 0xF))
     (hexdigit (drop_bit 4 c AND 0xF)) (hexdigit (c AND 0xF)) = Some c"
proof -
  have "hexval (hexdigit (drop_bit 12 c)) = Some (drop_bit 12 c)"
    and "hexval (hexdigit (drop_bit 8 c AND 0xF)) = Some (drop_bit 8 c AND 0xF)"
    and "hexval (hexdigit (drop_bit 4 c AND 0xF)) = Some (drop_bit 4 c AND 0xF)"
    and "hexval (hexdigit (c AND 0xF)) = Some (c AND 0xF)"
    by (simp_all only: hexval_hexdigit nib_lt top_lt)
  then show ?thesis
    by (simp only: hex4_def prod.case option.case nibbles)
qed

lemma lex_string_close: "lex_string (0x22 # rest) = Some ([], rest)"
  by simp

lemma lex_string_unicode_escape:
  "lex_string (unicode_escape c @ r) = consume c (lex_string r)"
  by (simp add: unicode_escape_def hex4_unicode)

lemma lex_string_quote_unit:
  "lex_string (quote_unit c @ r) = consume c (lex_string r)"
  by (simp add: quote_unit_def lex_string_unicode_escape unescape_def)

lemma surrogate_plain:
  "is_high_surrogate c \<or> is_low_surrogate c \<Longrightarrow> c \<noteq> 0x22 \<and> c \<noteq> 0x5C \<and> \<not> c < 0x20"
  by (auto simp: is_high_surrogate_def is_low_surrogate_def word_le_nat_alt word_less_nat_alt)

lemma lex_string_quote_body:
  "lex_string (quote_body s @ 0x22 # rest) = Some (s, rest)"
proof (induction s rule: quote_body.induct)
  case 1
  show ?case by simp
next
  case (2 c)
  show ?case
    by (simp add: lex_string_unicode_escape lex_string_quote_unit lex_string_close consume_def
        del: lex_string.simps(2))
next
  case (3 c d cs)
  show ?case
  proof (cases "is_high_surrogate c \<and> is_low_surrogate d")
    case True
    then have "lex_string (c # d # quote_body cs @ 0x22 # rest)
        = consume c (consume d (lex_string (quote_body cs @ 0x22 # rest)))"
      using surrogate_plain [of c] surrogate_plain [of d] by simp
    with True 3 show ?thesis by (simp add: consume_def)
  next
    case False
    with 3 show ?thesis
      by (auto simp: lex_string_unicode_escape lex_string_quote_unit consume_def
          simp del: lex_string.simps(2))
  qed
qed

lemma tokenize_QuoteJSONString:
  "tokenize (QuoteJSONString s @ rest) = push (TString s) (tokenize rest)"
  by (simp add: QuoteJSONString_def lex_string_quote_body is_ws_def)

subsection \<open>Reading back an array of strings\<close>

lemma tokenize_close: "tokenize [0x0A, 0x5D] = Some [TRBracket]"
  by (simp add: is_ws_def push_def)

lemma tokenize_strings:
  "hs \<noteq> [] \<Longrightarrow>
     tokenize (join ([0x2C, 0x0A] @ gap) (map QuoteJSONString hs) @ [0x0A, 0x5D])
       = Some (join [TComma] (map (\<lambda>h. [TString h]) hs) @ [TRBracket])"
proof (induction hs rule: induct_list012)
  case 1
  then show ?case by simp
next
  case (2 h)
  show ?case
    by (simp add: tokenize_QuoteJSONString tokenize_close push_def del: tokenize.simps)
next
  case (3 h h' hs)
  then have "tokenize (join ([0x2C, 0x0A] @ gap) (map QuoteJSONString (h' # hs)) @ [0x0A, 0x5D])
       = Some (join [TComma] (map (\<lambda>h. [TString h]) (h' # hs)) @ [TRBracket])"
    by simp
  then have "tokenize ([0x2C, 0x0A] @ gap @ join ([0x2C, 0x0A] @ gap) (map QuoteJSONString (h' # hs)) @ [0x0A, 0x5D])
       = Some (TComma # join [TComma] (map (\<lambda>h. [TString h]) (h' # hs)) @ [TRBracket])"
    by (simp add: gap_def is_ws_def push_def)
  then show ?case
    by (simp add: tokenize_QuoteJSONString push_def del: tokenize.simps)
qed

lemma parse_string_elements:
  "hs \<noteq> [] \<Longrightarrow>
     parse_elements num acc (join [TComma] (map (\<lambda>h. [TString h]) hs) @ [TRBracket])
       = Some (VArr (acc @ map VStr hs), [])"
proof (induction hs arbitrary: acc rule: induct_list012)
  case 1
  then show ?case by simp
next
  case (2 h)
  show ?case by simp
next
  case (3 h h' hs)
  from 3(2) [of "acc @ [VStr h]"] show ?case by simp
qed

lemma parse_stringify_strings:
  "JSON_parse num (JSON_stringify numtext (VArr (map VStr hs))) = Inr (VArr (map VStr hs))"
proof (cases "hs = []")
  case True
  then show ?thesis
    by (simp add: JSON_parse_def JSON_stringify_def js_def is_ws_def push_def)
next
  case False
  then obtain h hs' where hs: "hs = h # hs'" by (cases hs) auto
  have "JSON_stringify numtext (VArr (map VStr hs))
      = [0x5B, 0x0A] @ gap @ join ([0x2C, 0x0A] @ gap) (map QuoteJSONString hs) @ [0x0A, 0x5D]"
    using False by (simp add: JSON_stringify_def comp_def)
  moreover have "tokenize ([0x5B, 0x0A] @ gap @ join ([0x2C, 0x0A] @ gap) (map QuoteJSONString hs) @ [0x0A, 0x5D])
      = Some (TLBracket # join [TComma] (map (\<lambda>h. [TString h]) hs) @ [TRBracket])"
    using tokenize_strings [OF False] by (simp add: gap_def is_ws_def push_def)
  moreover have "parse_value num (TLBracket # join [TComma] (map (\<lambda>h. [TString h]) hs) @ [TRBracket])
      = Some (VArr (map VStr hs), [])"
  proof -
    have "parse_value num (TLBracket # join [TComma] (map (\<lambda>h. [TString h]) hs) @ [TRBracket])
      = parse_elements num [] (join [TComma] (map (\<lambda>h. [TString h]) hs) @ [TRBracket])"
      unfolding hs by (cases hs') simp_all
    then show ?thesis using parse_string_elements [OF False, of num "[]"] by simp
  qed
  ultimately show ?thesis by (simp add: JSON_parse_def)
qed

subsection \<open>The written record is well formed\<close>

text \<open>
  The text the dump stage writes for a set of strings has no surrogate outside a pair:
  the record file, which holds this text as UTF-8, is read back as the same text.
\<close>

lemma well_formed_plain_Cons: "plain c \<Longrightarrow> well_formed (c # r) = well_formed r"
  by (cases r) (simp_all add: plain_def)

lemma well_formed_plain_append: "list_all plain xs \<Longrightarrow> well_formed (xs @ r) = well_formed r"
  by (induction xs) (simp_all add: well_formed_plain_Cons)

lemma plain_small: "c < 0x100 \<Longrightarrow> plain c"
  by (auto simp: plain_def is_high_surrogate_def is_low_surrogate_def word_le_nat_alt word_less_nat_alt)

lemma hexdigit_small: "n < 16 \<Longrightarrow> hexdigit n < 0x100"
  by (auto simp: hexdigit_def word_le_nat_alt word_less_nat_alt unat_word_ariths)

lemma plain_unicode_escape: "list_all plain (unicode_escape c)"
  by (simp add: unicode_escape_def plain_small hexdigit_small nib_lt top_lt)

lemma plain_quote_unit: "plain c \<Longrightarrow> list_all plain (quote_unit c)"
  by (simp add: quote_unit_def plain_unicode_escape plain_small)

lemma well_formed_close: "well_formed (0x22 # r) = well_formed r"
  by (simp add: well_formed_plain_Cons plain_small)

lemma well_formed_quoted_unit:
  "well_formed ((if is_high_surrogate c \<or> is_low_surrogate c then unicode_escape c else quote_unit c) @ r)
     = well_formed r"
  by (simp add: well_formed_plain_append plain_unicode_escape plain_quote_unit plain_def)

lemma well_formed_quote_body: "well_formed (quote_body s @ 0x22 # r) = well_formed r"
proof (induction s rule: quote_body.induct)
  case 1
  show ?case by (simp add: well_formed_close)
next
  case (2 c)
  show ?case
    using well_formed_quoted_unit [of c "0x22 # r"] by (simp add: well_formed_close)
next
  case (3 c d cs)
  show ?case
  proof (cases "is_high_surrogate c \<and> is_low_surrogate d")
    case True
    with 3 show ?thesis by simp
  next
    case False
    with 3 have ih: "well_formed (quote_body (d # cs) @ 0x22 # r) = well_formed r"
      by blast
    from False have eq: "quote_body (c # d # cs) @ 0x22 # r
        = (if is_high_surrogate c \<or> is_low_surrogate c then unicode_escape c else quote_unit c)
          @ quote_body (d # cs) @ 0x22 # r"
      by auto
    show ?thesis
      by (simp only: eq well_formed_quoted_unit ih)
  qed
qed

lemma well_formed_QuoteJSONString: "well_formed (QuoteJSONString s @ r) = well_formed r"
  by (simp add: QuoteJSONString_def well_formed_plain_Cons plain_small well_formed_quote_body
      del: well_formed.simps)

lemma well_formed_strings:
  "well_formed (join ([0x2C, 0x0A] @ gap) (map QuoteJSONString hs) @ r) = well_formed r"
proof (induction hs rule: induct_list012)
  case 1
  show ?case by simp
next
  case (2 h)
  show ?case by (simp add: well_formed_QuoteJSONString del: well_formed.simps)
next
  case (3 h h' hs)
  have "well_formed (([0x2C, 0x0A] @ gap) @ join ([0x2C, 0x0A] @ gap) (map QuoteJSONString (h' # hs)) @ r)
      = well_formed (join ([0x2C, 0x0A] @ gap) (map QuoteJSONString (h' # hs)) @ r)"
    by (rule well_formed_plain_append) (simp add: gap_def plain_small)
  with 3 show ?case
    by (simp add: well_formed_QuoteJSONString del: well_formed.simps)
qed

lemma well_formed_record:
  "well_formed (JSON_stringify numtext (VArr (map VStr hs)))"
proof (cases "hs = []")
  case True
  then show ?thesis
    by (simp add: JSON_stringify_def js_def is_high_surrogate_def is_low_surrogate_def)
next
  case False
  have "well_formed ([0x5B, 0x0A] @ gap @ join ([0x2C, 0x0A] @ gap) (map QuoteJSONString hs) @ [0x0A, 0x5D])
      = well_formed (join ([0x2C, 0x0A] @ gap) (map QuoteJSONString hs) @ [0x0A, 0x5D])"
    using well_formed_plain_append [of "[0x5B, 0x0A] @ gap"]
    by (simp add: gap_def plain_small del: well_formed.simps)
  also have "\<dots> = well_formed [0x0A, 0x5D]"
    by (rule well_formed_strings)
  also have "\<dots>" by (simp add: is_high_surrogate_def is_low_surrogate_def)
  finally show ?thesis
    using False by (simp add: JSON_stringify_def comp_def del: well_formed.simps)
qed

subsection \<open>The parser\<close>

text \<open>
  A value takes at least one token, so the length test in \<open>parse_elements\<close> and
  \<open>parse_members\<close> never fails. The only error of \<open>JSON_parse\<close> is a SyntaxError.
\<close>

lemma elements_step:
  "parse_elements num acc ts = Some (v, r) \<Longrightarrow>
     \<exists>x y. parse_value num ts = Some (x, y) \<and> length y < length ts
       \<and> (y = TRBracket # r \<or> (\<exists>r'. y = TComma # r' \<and> parse_elements num (acc @ [x]) r' = Some (v, r)))"
  by (subst (asm) parse_elements.simps)
    (auto split: option.splits if_splits list.splits token.splits simp del: parse_elements.simps)

lemma members_step:
  "parse_members num acc (TString k # TColon # ts) = Some (v, r) \<Longrightarrow>
     \<exists>x y. parse_value num ts = Some (x, y) \<and> length y < length ts
       \<and> (y = TRBrace # r
          \<or> (\<exists>r'. y = TComma # r' \<and> parse_members num (obj_define acc k x) r' = Some (v, r)))"
  by (subst (asm) parse_members.simps)
    (auto split: option.splits if_splits list.splits token.splits simp del: parse_members.simps)

lemma parse_consumes:
  "parse_value num ts = Some (v, r) \<Longrightarrow> length r < length ts"
  "parse_elements num acc ts = Some (v, r) \<Longrightarrow> length r < length ts"
  "parse_members num macc ts = Some (v, r) \<Longrightarrow> length r < length ts"
proof (induction num ts and num acc ts and num macc ts arbitrary: v r and v r and v r
    rule: parse_value_parse_elements_parse_members.induct)
  case (12 num acc ts)
  from elements_step [OF "12.prems"] obtain x y where
    a: "parse_value num ts = Some (x, y)" and b: "length y < length ts" and
    c: "y = TRBracket # r \<or> (\<exists>r'. y = TComma # r' \<and> parse_elements num (acc @ [x]) r' = Some (v, r))"
    by blast
  from c show ?case
  proof
    assume "y = TRBracket # r"
    with b show ?thesis by simp
  next
    assume "\<exists>r'. y = TComma # r' \<and> parse_elements num (acc @ [x]) r' = Some (v, r)"
    then obtain r' where d: "y = TComma # r'" and e: "parse_elements num (acc @ [x]) r' = Some (v, r)"
      by blast
    from "12.IH"(2) [OF a refl b d refl e] b d show ?thesis by simp
  qed
next
  case (13 num acc k ts)
  from members_step [OF "13.prems"] obtain x y where
    a: "parse_value num ts = Some (x, y)" and b: "length y < length ts" and
    c: "y = TRBrace # r \<or> (\<exists>r'. y = TComma # r' \<and> parse_members num (obj_define acc k x) r' = Some (v, r))"
    by blast
  from c show ?case
  proof
    assume "y = TRBrace # r"
    with b show ?thesis by simp
  next
    assume "\<exists>r'. y = TComma # r' \<and> parse_members num (obj_define acc k x) r' = Some (v, r)"
    then obtain r' where d: "y = TComma # r'"
      and e: "parse_members num (obj_define acc k x) r' = Some (v, r)"
      by blast
    from "13.IH"(2) [OF a refl b d refl e] b d show ?thesis by simp
  qed
qed (fastforce simp del: parse_elements.simps)+

lemma JSON_parse_error: "JSON_parse num text = Inl e \<Longrightarrow> e = SyntaxError"
  by (auto simp: JSON_parse_def split: option.splits if_splits)

subsection \<open>Looking up and adding strings\<close>

lemma SameValueZero_VStr: "SameValueZero e (VStr h) = (e = VStr h)"
  by (cases e) auto

lemma Set_has_VStr: "Set_has s (VStr h) = (VStr h \<in> set s)"
  by (induction s) (simp_all add: Set_has_def SameValueZero_VStr eq_commute)

lemma set_Set_add_VStr: "set (Set_add s (VStr h)) = insert (VStr h) (set s)"
  by (auto simp: Set_add_def Set_has_VStr)

lemma Set_has_Set_add_VStr: "Set_has (Set_add s (VStr h)) (VStr h)"
  by (simp add: Set_has_VStr set_Set_add_VStr)

lemma Set_add_twice: "Set_add (Set_add s (VStr h)) (VStr h) = Set_add s (VStr h)"
  using Set_has_Set_add_VStr [of s h] by (simp add: Set_add_def [of "Set_add s (VStr h)"])

lemma SameValueZero_eq: "SameValueZero a b \<Longrightarrow> a = b"
  by (induction a b rule: SameValueZero.induct) simp_all

lemma Set_has_member: "Set_has s v \<Longrightarrow> v \<in> set s"
  by (auto simp: Set_has_def list_ex_iff dest: SameValueZero_eq)

lemma set_Set_add: "set (Set_add s v) = insert v (set s)"
  by (auto simp: Set_add_def dest: Set_has_member)

lemma set_foldl_Set_add: "set (foldl Set_add acc vs) = set acc \<union> set vs"
  by (induction vs arbitrary: acc) (simp_all add: set_Set_add)

lemma foldl_Set_add_distinct: "distinct (acc @ vs) \<Longrightarrow> foldl Set_add acc vs = acc @ vs"
proof (induction vs arbitrary: acc)
  case Nil
  show ?case by simp
next
  case (Cons v vs)
  then have "\<not> Set_has acc v" by (auto dest: Set_has_member)
  then have "Set_add acc v = acc @ [v]" by (simp add: Set_add_def)
  with Cons.IH [of "acc @ [v]"] Cons.prems show ?case by simp
qed

subsection \<open>Loading the module\<close>

text \<open>
  C3: loading gives the empty set when there is no record file; when the file holds a
  JSON array, the set is built from the elements of the array (and holds exactly
  them); when the file does not hold valid JSON, the SyntaxError of the parser is the
  result of loading: nothing recovers from it.
\<close>

theorem load_cases:
  "(file = None \<longrightarrow> load_module P file = Inr \<lparr>labeledSet = [], recordFile = None\<rparr>)
   \<and> (file = Some text \<and> JSON_parse (toNumber P) text = Inr (VArr vs)
        \<longrightarrow> load_module P file = Inr \<lparr>labeledSet = foldl Set_add [] vs, recordFile = file\<rparr>
          \<and> set (foldl Set_add [] vs) = set vs)
   \<and> (file = Some text \<and> JSON_parse (toNumber P) text = Inl e
        \<longrightarrow> load_module P file = Inl e \<and> e = SyntaxError)"
  by (auto simp: load_module_def getLabeledFiles_def set_foldl_Set_add dest: JSON_parse_error)

theorem load_cases_witness:
  "load_module demo None = Inr \<lparr>labeledSet = [], recordFile = None\<rparr>
   \<and> JSON_parse (toNumber demo) (js ''[\"6869\", \"00\", \"6869\"]'')
       = Inr (VArr [VStr (js ''6869''), VStr (js ''00''), VStr (js ''6869'')])
   \<and> load_module demo (Some (js ''[\"6869\", \"00\", \"6869\"]''))
       = Inr \<lparr>labeledSet = [VStr (js ''6869''), VStr (js ''00'')],
              recordFile = Some (js ''[\"6869\", \"00\", \"6869\"]'')\<rparr>
   \<and> JSON_parse (toNumber demo) (js ''[\"6869\",'') = Inl SyntaxError
   \<and> load_module demo (Some (js ''[\"6869\",'')) = Inl SyntaxError"
proof -
  have p1: "JSON_parse (toNumber demo) (js ''[\"6869\", \"00\", \"6869\"]'')
       = Inr (VArr [VStr (js ''6869''), VStr (js ''00''), VStr (js ''6869'')])"
    by code_simp
  have p2: "JSON_parse (toNumber demo) (js ''[\"6869\",'') = Inl SyntaxError"
    by code_simp
  have s: "foldl Set_add [] [VStr (js ''6869''), VStr (js ''00''), VStr (js ''6869'') :: jsstring jsval]
       = [VStr (js ''6869''), VStr (js ''00'')]"
    by code_simp
  from p1 p2 s
    load_cases [of None demo]
    load_cases [of "Some (js ''[\"6869\", \"00\", \"6869\"]'')" demo "js ''[\"6869\", \"00\", \"6869\"]''"
      "[VStr (js ''6869''), VStr (js ''00''), VStr (js ''6869'')]"]
    load_cases [of "Some (js ''[\"6869\",'')" demo "js ''[\"6869\",''" _ SyntaxError]
  show ?thesis by simp
qed

text \<open>
  C9 as stated fails at a record file holding \<^verbatim>\<open>null\<close>: this is valid JSON, neither an
  array nor a string, and the module loads with an empty set, since \<^verbatim>\<open>new Set(null)\<close>
  does not throw.
\<close>

theorem null_record_loads_empty:
  "JSON_parse (toNumber demo) (js ''null'') = Inr VNull
   \<and> load_module demo (Some (js ''null''))
       = Inr \<lparr>labeledSet = [], recordFile = Some (js ''null'')\<rparr>"
proof -
  have p: "JSON_parse (toNumber demo) (js ''null'') = Inr VNull"
    by code_simp
  then show ?thesis
    by (simp add: load_module_def getLabeledFiles_def)
qed

text \<open>
  C9, amended: when the record file holds valid JSON, loading throws a TypeError if the
  value is a boolean, a number or an object (the Set constructor rejects a value that
  is not iterable); \<^verbatim>\<open>null\<close> gives the empty set; a string gives the set of its
  characters (code points); an array gives the set of its elements.
\<close>

theorem non_array_record:
  "JSON_parse (toNumber P) text = Inr v \<Longrightarrow>
     (case v of
        VNull \<Rightarrow> load_module P (Some text) = Inr \<lparr>labeledSet = [], recordFile = Some text\<rparr>
      | VBool b \<Rightarrow> load_module P (Some text) = Inl TypeError
      | VNum n \<Rightarrow> load_module P (Some text) = Inl TypeError
      | VObj ps \<Rightarrow> load_module P (Some text) = Inl TypeError
      | VStr s \<Rightarrow>
          load_module P (Some text)
            = Inr \<lparr>labeledSet = foldl Set_add [] (map VStr (code_points s)), recordFile = Some text\<rparr>
          \<and> set (foldl Set_add [] (map VStr (code_points s))) = VStr ` set (code_points s)
      | VArr vs \<Rightarrow>
          load_module P (Some text)
            = Inr \<lparr>labeledSet = foldl Set_add [] vs, recordFile = Some text\<rparr>)"
  by (cases v) (simp_all add: load_module_def getLabeledFiles_def set_foldl_Set_add)

theorem non_array_record_witness:
  "JSON_parse (toNumber demo) (js ''{\"a\": 1}'') = Inr (VObj [(js ''a'', VNum (js ''1''))])
   \<and> load_module demo (Some (js ''{\"a\": 1}'')) = Inl TypeError
   \<and> JSON_parse (toNumber demo) (js ''5'') = Inr (VNum (js ''5''))
   \<and> load_module demo (Some (js ''5'')) = Inl TypeError
   \<and> JSON_parse (toNumber demo) (js ''true'') = Inr (VBool True)
   \<and> load_module demo (Some (js ''true'')) = Inl TypeError
   \<and> JSON_parse (toNumber demo) (js ''\"aab\"'') = Inr (VStr (js ''aab''))
   \<and> load_module demo (Some (js ''\"aab\"''))
       = Inr \<lparr>labeledSet = [VStr (js ''a''), VStr (js ''b'')], recordFile = Some (js ''\"aab\"'')\<rparr>"
proof -
  have p1: "JSON_parse (toNumber demo) (js ''{\"a\": 1}'') = Inr (VObj [(js ''a'', VNum (js ''1''))])"
    by code_simp
  have p2: "JSON_parse (toNumber demo) (js ''5'') = Inr (VNum (js ''5''))"
    by code_simp
  have p3: "JSON_parse (toNumber demo) (js ''true'') = Inr (VBool True)"
    by code_simp
  have p4: "JSON_parse (toNumber demo) (js ''\"aab\"'') = Inr (VStr (js ''aab''))"
    by code_simp
  have s: "foldl Set_add [] (map VStr (code_points (js ''aab''))) = [VStr (js ''a''), VStr (js ''b'') :: jsstring jsval]"
    by code_simp
  have l1: "load_module demo (Some (js ''{\"a\": 1}'')) = Inl TypeError"
    using non_array_record [OF p1] by simp
  have l2: "load_module demo (Some (js ''5'')) = Inl TypeError"
    using non_array_record [OF p2] by simp
  have l3: "load_module demo (Some (js ''true'')) = Inl TypeError"
    using non_array_record [OF p3] by simp
  have l4: "load_module demo (Some (js ''\"aab\"''))
       = Inr \<lparr>labeledSet = [VStr (js ''a''), VStr (js ''b'')], recordFile = Some (js ''\"aab\"'')\<rparr>"
    using non_array_record [OF p4] unfolding jsval.case s by (rule conjunct1)
  from p1 l1 p2 l2 p3 l3 p4 l4 show ?thesis by blast
qed

subsection \<open>Writing the record and loading it again\<close>

text \<open>
  C4: for a set of hashes (strings), the record file written by the dump stage, loaded
  by a fresh module, gives a set with the same elements; the same list when the set
  has no duplicates, as a \<^verbatim>\<open>Set\<close> never has.
\<close>

theorem persist_then_load:
  "labeledSet st = map VStr hs \<Longrightarrow> contents file = Some buf \<Longrightarrow>
     load_module P (recordFile (snd (dumpToRecordJSON P file st)))
       = Inr \<lparr>labeledSet = foldl Set_add [] (labeledSet st),
              recordFile = recordFile (snd (dumpToRecordJSON P file st))\<rparr>
   \<and> set (foldl Set_add [] (labeledSet st)) = set (labeledSet st)
   \<and> (distinct (labeledSet st) \<longrightarrow> foldl Set_add [] (labeledSet st) = labeledSet st)"
  using foldl_Set_add_distinct [of "[]" "labeledSet st"]
  by (simp add: dumpToRecordJSON_def load_module_def getLabeledFiles_def
      parse_stringify_strings set_foldl_Set_add)

theorem persist_then_load_witness:
  "load_module demo (recordFile (snd (dumpToRecordJSON demo
       \<lparr>path = js ''a'', contents = Some [0x68, 0x69]\<rparr>
       \<lparr>labeledSet = map VStr [js ''6869'', [0x22, 0x5C, 0x0A, 0x1F, 0xD83D, 0xDE00, 0xDC00]],
        recordFile = None\<rparr>)))
   = Inr \<lparr>labeledSet = [VStr (js ''6869''), VStr [0x22, 0x5C, 0x0A, 0x1F, 0xD83D, 0xDE00, 0xDC00]],
          recordFile = Some ([0x5B, 0x0A, 0x20, 0x20, 0x22] @ js ''6869'' @ [0x22, 0x2C, 0x0A, 0x20, 0x20, 0x22]
            @ [0x5C, 0x22, 0x5C, 0x5C, 0x5C, 0x6E] @ [0x5C] @ js ''u001f'' @ [0xD83D, 0xDE00, 0x5C] @ js ''udc00''
            @ [0x22, 0x0A, 0x5D])\<rparr>"
proof -
  have d: "recordFile (snd (dumpToRecordJSON demo
       \<lparr>path = js ''a'', contents = Some [0x68, 0x69]\<rparr>
       \<lparr>labeledSet = map VStr [js ''6869'', [0x22, 0x5C, 0x0A, 0x1F, 0xD83D, 0xDE00, 0xDC00]],
        recordFile = None\<rparr>))
     = Some ([0x5B, 0x0A, 0x20, 0x20, 0x22] @ js ''6869'' @ [0x22, 0x2C, 0x0A, 0x20, 0x20, 0x22]
            @ [0x5C, 0x22, 0x5C, 0x5C, 0x5C, 0x6E] @ [0x5C] @ js ''u001f'' @ [0xD83D, 0xDE00, 0x5C] @ js ''udc00''
            @ [0x22, 0x0A, 0x5D])"
    by code_simp
  have s: "foldl Set_add [] (map VStr [js ''6869'', [0x22, 0x5C, 0x0A, 0x1F, 0xD83D, 0xDE00, 0xDC00]])
     = [VStr (js ''6869''), VStr [0x22, 0x5C, 0x0A, 0x1F, 0xD83D, 0xDE00, 0xDC00] :: jsstring jsval]"
    by code_simp
  from d s persist_then_load [of
       "\<lparr>labeledSet = map VStr [js ''6869'', [0x22, 0x5C, 0x0A, 0x1F, 0xD83D, 0xDE00, 0xDC00]],
        recordFile = None\<rparr>" "[js ''6869'', [0x22, 0x5C, 0x0A, 0x1F, 0xD83D, 0xDE00, 0xDC00]]"
       "\<lparr>path = js ''a'', contents = Some [0x68, 0x69]\<rparr>" "[0x68, 0x69]" demo]
  show ?thesis by simp
qed

subsection \<open>The stages\<close>

text \<open>Each of the three exported factories passes \<^verbatim>\<open>maxConcurrency: 8\<close>.\<close>

lemma stages_maxConcurrency:
  "maxConcurrency (notLabled P) = 8 \<and> maxConcurrency (label P) = 8 \<and> maxConcurrency (dump P) = 8"
  by (simp add: notLabled_def label_def dump_def createThroughStream_def)

text \<open>
  Whole streams: the filter sends downstream the items without contents and the items
  whose hash is not in the set, in their order, and leaves the state as it was; the
  label stage sends every item downstream.
\<close>

lemma filter_stage_run:
  "pipe items (notLabled P) st
     = ((filter (\<lambda>f. case contents f of
                       None \<Rightarrow> True
                     | Some buf \<Rightarrow> VStr (hasha P buf) \<notin> set (labeledSet st)) items, None), st)"
  unfolding pipe_def notLabled_def createThroughStream_def
  by (induction items) (simp_all add: filterNotLabled_def Set_has_VStr split: option.split)

lemma label_stage_run:
  "\<exists>st'. pipe items (label P) st = ((items, None), st')"
  unfolding pipe_def label_def createThroughStream_def
proof (induction items arbitrary: st)
  case Nil
  show ?case by simp
next
  case (Cons f fs)
  obtain st1 where a: "labelFile P f st = (Inr (Forward f), st1)"
    by (cases "contents f") (simp_all add: labelFile_def)
  from Cons [of st1] obtain st2 where "run (labelFile P) fs st1 = ((fs, None), st2)"
    by auto
  with a show ?case by simp
qed

text \<open>
  What the dump stage does with an item that has a content buffer: it writes the
  serialized set to the record file, and the call of \<^verbatim>\<open>cb\<close> that follows throws. In a
  stream the item is not sent downstream and the stream fails.
\<close>

lemma dump_present:
  "contents file = Some buf \<Longrightarrow>
     dumpToRecordJSON P file st
       = (Inl ReferenceError,
          st\<lparr>recordFile := Some (JSON_stringify (numberText P) (VArr (labeledSet st)))\<rparr>)
   \<and> pipe [file] (dump P) st
       = (([], Some ReferenceError),
          st\<lparr>recordFile := Some (JSON_stringify (numberText P) (VArr (labeledSet st)))\<rparr>)"
  by (simp add: dumpToRecordJSON_def pipe_def dump_def createThroughStream_def)

text \<open>
  C1 (the code departs from the claim): for an item with a content buffer the dump stage
  should write the record file and then forward the item through the callback it was
  given. The source calls \<^verbatim>\<open>cb\<close>, a name bound nowhere, instead of \<^verbatim>\<open>next\<close>. At the item
  with contents \<^verbatim>\<open>hi\<close> and the set holding one hash, the file is written, a
  ReferenceError is thrown, and nothing is forwarded.
\<close>

theorem dump_calls_undefined_cb:
  "dumpToRecordJSON demo \<lparr>path = js ''a'', contents = Some [0x68, 0x69]\<rparr>
      \<lparr>labeledSet = [VStr (js ''6869'')], recordFile = None\<rparr>
   = (Inl ReferenceError,
      \<lparr>labeledSet = [VStr (js ''6869'')],
       recordFile = Some ([0x5B, 0x0A, 0x20, 0x20, 0x22] @ js ''6869'' @ [0x22, 0x0A, 0x5D])\<rparr>)
   \<and> pipe [\<lparr>path = js ''a'', contents = Some [0x68, 0x69]\<rparr>] (dump demo)
      \<lparr>labeledSet = [VStr (js ''6869'')], recordFile = None\<rparr>
   = (([], Some ReferenceError),
      \<lparr>labeledSet = [VStr (js ''6869'')],
       recordFile = Some ([0x5B, 0x0A, 0x20, 0x20, 0x22] @ js ''6869'' @ [0x22, 0x0A, 0x5D])\<rparr>)"
  by (simp add: dumpToRecordJSON_def JSON_stringify_def QuoteJSONString_def gap_def
      quote_unit_def is_high_surrogate_def is_low_surrogate_def js_def
      pipe_def dump_def createThroughStream_def)

text \<open>
  C2: for an item with a content buffer, the filter stage drops the item exactly when
  the hash of its contents is in the set and forwards it unchanged otherwise; the state
  (the set and the record file) stays as it was. With the hash of \<open>A\<close> in the set and
  the hash of \<open>B\<close> not in it, piping \<open>[A, B]\<close> through the filter sends exactly \<open>[B]\<close>
  downstream.
\<close>

theorem filter_drops_labeled:
  "contents A = Some a \<Longrightarrow> contents B = Some b \<Longrightarrow>
     filterNotLabled P A st
       = (if VStr (hasha P a) \<in> set (labeledSet st) then Inr Drop else Inr (Forward A), st)
   \<and> (VStr (hasha P a) \<in> set (labeledSet st) \<and> VStr (hasha P b) \<notin> set (labeledSet st)
        \<longrightarrow> pipe [A, B] (notLabled P) st = (([B], None), st))"
  by (simp add: filterNotLabled_def Set_has_VStr pipe_def notLabled_def createThroughStream_def)

theorem filter_drops_labeled_witness:
  "contents \<lparr>path = js ''a'', contents = Some [0x68, 0x69]\<rparr> = Some [0x68, 0x69]
   \<and> contents \<lparr>path = js ''b'', contents = Some [0x21]\<rparr> = Some [0x21]
   \<and> VStr (hasha demo [0x68, 0x69]) \<in> set [VStr (js ''00''), VStr (js ''6869'')]
   \<and> VStr (hasha demo [0x21]) \<notin> set [VStr (js ''00''), VStr (js ''6869'') :: jsstring jsval]
   \<and> filterNotLabled demo \<lparr>path = js ''a'', contents = Some [0x68, 0x69]\<rparr>
        \<lparr>labeledSet = [VStr (js ''00''), VStr (js ''6869'')], recordFile = None\<rparr>
     = (Inr Drop, \<lparr>labeledSet = [VStr (js ''00''), VStr (js ''6869'')], recordFile = None\<rparr>)
   \<and> pipe [\<lparr>path = js ''a'', contents = Some [0x68, 0x69]\<rparr>,
            \<lparr>path = js ''b'', contents = Some [0x21]\<rparr>] (notLabled demo)
        \<lparr>labeledSet = [VStr (js ''00''), VStr (js ''6869'')], recordFile = None\<rparr>
     = (([\<lparr>path = js ''b'', contents = Some [0x21]\<rparr>], None),
        \<lparr>labeledSet = [VStr (js ''00''), VStr (js ''6869'')], recordFile = None\<rparr>)"
  using filter_drops_labeled [of "\<lparr>path = js ''a'', contents = Some [0x68, 0x69]\<rparr>" "[0x68, 0x69]"
      "\<lparr>path = js ''b'', contents = Some [0x21]\<rparr>" "[0x21]" demo
      "\<lparr>labeledSet = [VStr (js ''00''), VStr (js ''6869'')], recordFile = None\<rparr>"]
  by (simp add: demo_def hex_of_byte_def hexdigit_def js_def)

text \<open>
  C5: for an item with a content buffer, the label stage adds the hash of the contents
  to the set (and changes nothing else), and forwards the item unchanged; no item,
  with or without contents, is dropped.
\<close>

theorem label_adds_hash:
  "contents file = Some buf \<Longrightarrow>
     fst (labelFile P file st) = Inr (Forward file)
   \<and> labeledSet (snd (labelFile P file st)) = Set_add (labeledSet st) (VStr (hasha P buf))
   \<and> set (labeledSet (snd (labelFile P file st))) = insert (VStr (hasha P buf)) (set (labeledSet st))
   \<and> Set_has (labeledSet (snd (labelFile P file st))) (VStr (hasha P buf))
   \<and> recordFile (snd (labelFile P file st)) = recordFile st
   \<and> fst (labelFile P g st) = Inr (Forward g)"
  by (simp add: labelFile_def set_Set_add_VStr Set_has_Set_add_VStr split: option.split)

theorem label_adds_hash_witness:
  "contents \<lparr>path = js ''a'', contents = Some [0x68, 0x69]\<rparr> = Some [0x68, 0x69]
   \<and> labelFile demo \<lparr>path = js ''a'', contents = Some [0x68, 0x69]\<rparr>
        \<lparr>labeledSet = [VStr (js ''00'')], recordFile = None\<rparr>
     = (Inr (Forward \<lparr>path = js ''a'', contents = Some [0x68, 0x69]\<rparr>),
        \<lparr>labeledSet = [VStr (js ''00''), VStr (js ''6869'')], recordFile = None\<rparr>)"
  using label_adds_hash [of "\<lparr>path = js ''a'', contents = Some [0x68, 0x69]\<rparr>" "[0x68, 0x69]" demo
      "\<lparr>labeledSet = [VStr (js ''00'')], recordFile = None\<rparr>"]
  by (simp add: labelFile_def Set_add_def Set_has_def demo_def hex_of_byte_def hexdigit_def js_def)

text \<open>
  C6: an item without contents is forwarded unchanged by each of the three stages,
  whatever the set holds, and neither the set nor the record file is touched.
\<close>

theorem null_passthrough:
  "contents file = None \<Longrightarrow>
     filterNotLabled P file st = (Inr (Forward file), st)
   \<and> labelFile P file st = (Inr (Forward file), st)
   \<and> dumpToRecordJSON P file st = (Inr (Forward file), st)"
  by (simp add: filterNotLabled_def labelFile_def dumpToRecordJSON_def)

theorem null_passthrough_witness:
  "contents \<lparr>path = js ''out'', contents = None\<rparr> = None
   \<and> filterNotLabled demo \<lparr>path = js ''out'', contents = None\<rparr>
        \<lparr>labeledSet = [VStr (js ''6869'')], recordFile = Some (js ''nonsense'')\<rparr>
      = (Inr (Forward \<lparr>path = js ''out'', contents = None\<rparr>),
         \<lparr>labeledSet = [VStr (js ''6869'')], recordFile = Some (js ''nonsense'')\<rparr>)
   \<and> labelFile demo \<lparr>path = js ''out'', contents = None\<rparr>
        \<lparr>labeledSet = [VStr (js ''6869'')], recordFile = Some (js ''nonsense'')\<rparr>
      = (Inr (Forward \<lparr>path = js ''out'', contents = None\<rparr>),
         \<lparr>labeledSet = [VStr (js ''6869'')], recordFile = Some (js ''nonsense'')\<rparr>)
   \<and> dumpToRecordJSON demo \<lparr>path = js ''out'', contents = None\<rparr>
        \<lparr>labeledSet = [VStr (js ''6869'')], recordFile = Some (js ''nonsense'')\<rparr>
      = (Inr (Forward \<lparr>path = js ''out'', contents = None\<rparr>),
         \<lparr>labeledSet = [VStr (js ''6869'')], recordFile = Some (js ''nonsense'')\<rparr>)"
  using null_passthrough [of "\<lparr>path = js ''out'', contents = None\<rparr>" demo
      "\<lparr>labeledSet = [VStr (js ''6869'')], recordFile = Some (js ''nonsense'')\<rparr>"]
  by simp

text \<open>
  C7: adding a hash a second time changes nothing: the set, and so its size, is what it
  was after the first call. The same holds for labeling the same item twice.
\<close>

theorem add_idempotent:
  "Set_add (Set_add s (VStr h)) (VStr h) = Set_add s (VStr h)
   \<and> length (Set_add (Set_add s (VStr h)) (VStr h)) = length (Set_add s (VStr h))
   \<and> snd (labelFile P file (snd (labelFile P file st))) = snd (labelFile P file st)"
  by (simp add: Set_add_twice labelFile_def split: option.split)

theorem add_idempotent_witness:
  "Set_add (Set_add [VStr (js ''00'')] (VStr (js ''6869''))) (VStr (js ''6869''))
     = [VStr (js ''00''), VStr (js ''6869'')]
   \<and> length (Set_add (Set_add [VStr (js ''00'')] (VStr (js ''6869''))) (VStr (js ''6869''))) = 2
   \<and> snd (labelFile demo \<lparr>path = js ''a'', contents = Some [0x68, 0x69]\<rparr>
        (snd (labelFile demo \<lparr>path = js ''a'', contents = Some [0x68, 0x69]\<rparr>
          \<lparr>labeledSet = [VStr (js ''00'')], recordFile = None\<rparr>)))
     = \<lparr>labeledSet = [VStr (js ''00''), VStr (js ''6869'')], recordFile = None\<rparr>"
  using add_idempotent [of "[VStr (js ''00'')] :: jsstring jsval list" "js ''6869''" demo
      "\<lparr>path = js ''a'', contents = Some [0x68, 0x69]\<rparr>"
      "\<lparr>labeledSet = [VStr (js ''00'')], recordFile = None\<rparr>"]
  by (simp add: labelFile_def Set_add_def Set_has_def demo_def hex_of_byte_def hexdigit_def js_def)

text \<open>
  C10: the dump stage never changes the set in memory, for any item and any state (it
  writes the record file only).
\<close>

theorem dump_keeps_set:
  "labeledSet (snd (dumpToRecordJSON P file st)) = labeledSet st"
  by (simp add: dumpToRecordJSON_def Let_def split: option.split)

theorem dump_keeps_set_witness:
  "labeledSet (snd (dumpToRecordJSON demo \<lparr>path = js ''a'', contents = Some [0x68, 0x69]\<rparr>
      \<lparr>labeledSet = [VStr (js ''6869''), VStr (js ''00'')], recordFile = None\<rparr>))
   = [VStr (js ''6869''), VStr (js ''00'')]"
  using dump_keeps_set [of demo "\<lparr>path = js ''a'', contents = Some [0x68, 0x69]\<rparr>"
      "\<lparr>labeledSet = [VStr (js ''6869''), VStr (js ''00'')], recordFile = None\<rparr>"]
  by simp

end
